theory Spec2Isabelle
  imports Main "HOL-Library.AList"
begin

section \<open>The console session of container_console.go\<close>

text \<open>
  The development embeds \<^verbatim>\<open>lxd/container_console.go\<close>: the session record
  \<^verbatim>\<open>consoleWs\<close>, its methods \<^verbatim>\<open>Metadata\<close>, \<^verbatim>\<open>Connect\<close> and \<^verbatim>\<open>Do\<close>, and the request
  handler \<^verbatim>\<open>containerConsolePost\<close>.

  Go maps are association lists with the map's entries in one iteration order; Go leaves
  that order open, so every statement below is made for every list. A websocket connection
  is a handle (a number); a nil connection is \<open>None\<close>. A Go \<^verbatim>\<open>error\<close> value is
  \<open>error option\<close>, with \<open>None\<close> for nil.
\<close>

subsection \<open>Errors, channels, the session record\<close>

type_synonym conn = nat

datatype error =
    Errorf string          \<comment> \<open>\<^verbatim>\<open>fmt.Errorf(msg)\<close>\<close>
  | ErrPermission          \<comment> \<open>\<^verbatim>\<open>os.ErrPermission\<close>\<close>
  | External nat           \<comment> \<open>an error value handed back by a callee outside this file\<close>

text \<open>
  A Go channel of booleans on which only \<^verbatim>\<open>true\<close> is ever sent: the number of buffered
  values, the buffer's capacity and the number of senders blocked in a send.
\<close>

record chan =
  cap :: nat
  buffered :: nat
  blocked :: nat

definition make_chan :: "nat \<Rightarrow> chan" where
  "make_chan n = \<lparr>cap = n, buffered = 0, blocked = 0\<rparr>"

text \<open>
  \<^verbatim>\<open>ch <- true\<close>: the send completes when the buffer has room; otherwise the sender
  blocks (the first component is \<open>False\<close>) until a receiver takes a value.
\<close>

definition chan_send :: "chan \<Rightarrow> bool \<times> chan" where
  "chan_send c =
     (if buffered c < cap c then (True, c\<lparr>buffered := Suc (buffered c)\<rparr>)
      else (False, c\<lparr>blocked := Suc (blocked c)\<rparr>))"

text \<open>
  \<^verbatim>\<open><-ch\<close>: \<open>None\<close> when nothing is buffered (the receiver blocks). Taking a value
  lets one blocked sender, when there is one, put its value in the freed place.
\<close>

definition chan_recv :: "chan \<Rightarrow> chan option" where
  "chan_recv c =
     (if buffered c = 0 then None
      else if 0 < blocked c then Some (c\<lparr>blocked := blocked c - 1\<rparr>)
      else Some (c\<lparr>buffered := buffered c - 1\<rparr>))"

record consoleWs =
  container :: string
  rootUid :: int
  rootGid :: int
  conns :: "(int \<times> conn option) list"
  allConnected :: chan
  controlConnected :: chan
  fds :: "(int \<times> string) list"
  width :: int
  height :: int

subsection \<open>Connect\<close>

text \<open>What a call did: it returned an error value, or it is blocked in a channel send.\<close>

datatype outcome = Returned "error option" | Blocked

text \<open>
  Lines 71-72: the scan \<^verbatim>\<open>for fd, fdSecret := range s.fds\<close> up to the first entry whose
  secret equals the request's.
\<close>

fun find_secret :: "string \<Rightarrow> (int \<times> string) list \<Rightarrow> int option" where
  "find_secret secret [] = None"
| "find_secret secret ((fd, fdSecret) # rest) =
     (if secret = fdSecret then Some fd else find_secret secret rest)"

text \<open>
  Lines 88-93: the scan of \<^verbatim>\<open>s.conns\<close> for an entry \<^verbatim>\<open>i != -1 && c == nil\<close>.
\<close>

fun has_unbound_data :: "(int \<times> conn option) list \<Rightarrow> bool" where
  "has_unbound_data [] = False"
| "has_unbound_data ((i, c) # rest) =
     (if i \<noteq> -1 \<and> c = None then True else has_unbound_data rest)"

text \<open>
  Lines 66-85 of \<^verbatim>\<open>Connect\<close>: the empty-secret guard, the scan, the upgrade (its result
  \<open>upg\<close> is the environment's: \<open>Inl\<close> an error, \<open>Inr\<close> the new connection), the store
  into \<^verbatim>\<open>s.conns[fd]\<close> and, for the control channel, the send on
  \<^verbatim>\<open>controlConnected\<close>. \<open>Finished r\<close> is a request that is over (or blocked) with \<open>r\<close>;
  \<open>ToCheck\<close> is a data-channel request that goes on to line 87.
\<close>

datatype bound = Finished outcome | ToCheck

definition Connect_bind :: "consoleWs \<Rightarrow> string \<Rightarrow> error + conn \<Rightarrow> bound \<times> consoleWs" where
  "Connect_bind s secret upg =
     (if secret = [] then (Finished (Returned (Some (Errorf ''missing secret''))), s)
      else case find_secret secret (fds s) of
        None \<Rightarrow> (Finished (Returned (Some ErrPermission)), s)
      | Some fd \<Rightarrow>
          (case upg of
            Inl err \<Rightarrow> (Finished (Returned (Some err)), s)
          | Inr c \<Rightarrow>
              (let s1 = s\<lparr>conns := AList.update fd (Some c) (conns s)\<rparr> in
               if fd = -1 then
                 (case chan_send (controlConnected s1) of
                   (sent, ch) \<Rightarrow>
                     (Finished (if sent then Returned None else Blocked),
                      s1\<lparr>controlConnected := ch\<rparr>))
               else (ToCheck, s1))))"

text \<open>
  Lines 87-97: under the lock, return when some data slot is still nil; otherwise send on
  \<^verbatim>\<open>allConnected\<close>.
\<close>

definition Connect_signal :: "consoleWs \<Rightarrow> outcome \<times> consoleWs" where
  "Connect_signal s =
     (if has_unbound_data (conns s) then (Returned None, s)
      else case chan_send (allConnected s) of
        (sent, ch) \<Rightarrow> (if sent then Returned None else Blocked, s\<lparr>allConnected := ch\<rparr>))"

text \<open>\<^verbatim>\<open>Connect\<close>, lines 65-104, run without another request in between.\<close>

definition Connect :: "consoleWs \<Rightarrow> string \<Rightarrow> error + conn \<Rightarrow> outcome \<times> consoleWs" where
  "Connect s secret upg =
     (case Connect_bind s secret upg of
       (Finished r, s') \<Rightarrow> (r, s')
     | (ToCheck, s') \<Rightarrow> Connect_signal s')"

text \<open>
  The session as \<^verbatim>\<open>containerConsolePost\<close> leaves it (lines 257-284) once both secrets are
  drawn: both slots nil, both channels of capacity one and empty.
\<close>

definition new_consoleWs :: "string \<Rightarrow> int \<Rightarrow> int \<Rightarrow> (int \<times> string) list \<Rightarrow> int \<Rightarrow> int \<Rightarrow> consoleWs" where
  "new_consoleWs c uid gid secrets w h =
     \<lparr>container = c, rootUid = uid, rootGid = gid,
      conns = [(-1, None), (0, None)],
      allConnected = make_chan 1, controlConnected = make_chan 1,
      fds = secrets, width = w, height = h\<rparr>"

subsection \<open>Metadata\<close>

text \<open>
  \<^verbatim>\<open>shared.Jmap\<close> is \<^verbatim>\<open>map[string]interface{}\<close>; the values \<^verbatim>\<open>Metadata\<close> stores are strings
  and one nested map.
\<close>

datatype jval = JString string | JMap "(string \<times> jval) list"

text \<open>
  \<^verbatim>\<open>strconv.Itoa\<close> of the Go library: the decimal digits of the integer, after a minus sign
  when it is negative.
\<close>

definition digit_char :: "nat \<Rightarrow> char" where
  "digit_char d = ''0123456789'' ! d"

fun digits :: "nat \<Rightarrow> string" where
  "digits n = (if n < 10 then [digit_char n] else digits (n div 10) @ [digit_char (n mod 10)])"

declare digits.simps [simp del]

definition Itoa :: "int \<Rightarrow> string" where
  "Itoa i = (if i < 0 then CHR ''-'' # digits (nat (- i)) else digits (nat i))"

text \<open>Lines 54-60: the loop over \<^verbatim>\<open>s.fds\<close> that fills the inner map.\<close>

fun Metadata_fds :: "(int \<times> string) list \<Rightarrow> (string \<times> jval) list \<Rightarrow> (string \<times> jval) list" where
  "Metadata_fds [] acc = acc"
| "Metadata_fds ((fd, secret) # rest) acc =
     (if fd = -1 then Metadata_fds rest (AList.update ''control'' (JString secret) acc)
      else Metadata_fds rest (AList.update (Itoa fd) (JString secret) acc))"

definition Metadata :: "consoleWs \<Rightarrow> (string \<times> jval) list" where
  "Metadata s = [(''fds'', JMap (Metadata_fds (fds s) []))]"

subsection \<open>The pty and the callees outside this file\<close>

text \<open>
  What this file does to the pty pair: whether \<^verbatim>\<open>shared.OpenPty\<close> has made it, the window
  size last set successfully, every
  \<^verbatim>\<open>shared.SetSize\<close> call made on the master (oldest first), and whether each descriptor has
  been closed.
\<close>

record pty =
  opened :: bool
  winsize :: "(int \<times> int) option"
  resizes :: "(int \<times> int) list"
  slave_closed :: bool
  master_closed :: bool

text \<open>\<^verbatim>\<open>api.ContainerConsoleControl\<close>: a command name and a \<^verbatim>\<open>map[string]string\<close>.\<close>

record ContainerConsoleControl =
  Command :: string
  Args :: "(string \<times> string) list"

text \<open>
  The callees that are not in this file are parameters: what \<^verbatim>\<open>shared.OpenPty\<close> and
  \<^verbatim>\<open>container.Console\<close> return (nil or an error), what the \<open>n\<close>-th call of
  \<^verbatim>\<open>shared.SetSize\<close> with a width and a height returns, and the library functions
  \<^verbatim>\<open>json.Unmarshal\<close> and \<^verbatim>\<open>strconv.Atoi\<close>.
\<close>

record environment =
  OpenPty :: "error option"
  SetSize :: "nat \<Rightarrow> int \<Rightarrow> int \<Rightarrow> error option"
  Console :: "error option"
  Unmarshal :: "string \<Rightarrow> error + ContainerConsoleControl"
  Atoi :: "string \<Rightarrow> error + int"

text \<open>
  A call \<^verbatim>\<open>shared.SetSize(int(master.Fd()), w, h)\<close>: the call is recorded; the window size
  changes when the call returns nil.
\<close>

definition call_SetSize :: "environment \<Rightarrow> int \<Rightarrow> int \<Rightarrow> pty \<Rightarrow> error option \<times> pty" where
  "call_SetSize env w h p =
     (let r = SetSize env (length (resizes p)) w h in
      (r, p\<lparr>winsize := (if r = None then Some (w, h) else winsize p),
            resizes := resizes p @ [(w, h)]\<rparr>))"

subsection \<open>The control loop of Do\<close>

text \<open>
  What one round of \<^verbatim>\<open>conn.NextReader()\<close> and \<^verbatim>\<open>ioutil.ReadAll(r)\<close> on the control socket
  gives: the message type, the error of \<^verbatim>\<open>NextReader\<close>, and the bytes or the error of
  \<^verbatim>\<open>ReadAll\<close>.
\<close>

record frame =
  msg_type :: int
  next_err :: "error option"
  read_all :: "error + string"

definition CloseMessage :: int where
  "CloseMessage = 8"

text \<open>\<^verbatim>\<open>command.Args[key]\<close>: the empty string when the key is missing.\<close>

definition Args_get :: "ContainerConsoleControl \<Rightarrow> string \<Rightarrow> string" where
  "Args_get command k = (case map_of (Args command) k of None \<Rightarrow> [] | Some v \<Rightarrow> v)"

text \<open>
  Lines 139-183, one iteration of the loop on the frame read: \<open>False\<close> is \<^verbatim>\<open>break\<close>,
  \<open>True\<close> is \<^verbatim>\<open>continue\<close> or the end of the body.
\<close>

definition control_iter :: "environment \<Rightarrow> frame \<Rightarrow> pty \<Rightarrow> bool \<times> pty" where
  "control_iter env f p =
     (if msg_type f = CloseMessage then (False, p)
      else if next_err f \<noteq> None then (False, p)
      else case read_all f of
        Inl err \<Rightarrow> (False, p)
      | Inr buf \<Rightarrow>
          (case Unmarshal env buf of
            Inl err \<Rightarrow> (True, p)
          | Inr command \<Rightarrow>
              if Command command = ''window-resize'' then
                (case Atoi env (Args_get command ''width'') of
                  Inl err \<Rightarrow> (True, p)
                | Inr winchWidth \<Rightarrow>
                    (case Atoi env (Args_get command ''height'') of
                      Inl err \<Rightarrow> (True, p)
                    | Inr winchHeight \<Rightarrow>
                        (True, snd (call_SetSize env winchWidth winchHeight p))))
              else (True, p)))"

text \<open>
  The loop of lines 134-184 on the frames the socket has delivered so far: it has left the
  loop (\<open>Exited\<close>), or it waits in \<^verbatim>\<open>NextReader\<close> for the next frame (\<open>Reading\<close>).
\<close>

datatype loop_state = Reading | Exited

fun control_loop :: "environment \<Rightarrow> frame list \<Rightarrow> pty \<Rightarrow> loop_state \<times> pty" where
  "control_loop env [] p = (Reading, p)"
| "control_loop env (f # fs) p =
     (case control_iter env f p of
       (True, p') \<Rightarrow> control_loop env fs p'
     | (False, p') \<Rightarrow> (Exited, p'))"

subsection \<open>containerConsolePost\<close>

text \<open>
  What the handler reads of the container it loaded: its name, \<^verbatim>\<open>IsRunning()\<close>,
  \<^verbatim>\<open>IsFrozen()\<close>, and \<^verbatim>\<open>IdmapSet()\<close> (an error, nil, or a set, given by what its
  \<^verbatim>\<open>ShiftIntoNs(0, 0)\<close> returns).
\<close>

record container_info =
  Name :: string
  IsRunning :: bool
  IsFrozen :: bool
  IdmapSet :: "error + (int \<times> int) option"

text \<open>
  The handler's callees: \<^verbatim>\<open>containerLoadByName\<close>, \<^verbatim>\<open>ioutil.ReadAll(r.Body)\<close>,
  \<^verbatim>\<open>json.Unmarshal\<close> into \<^verbatim>\<open>api.ContainerConsolePost\<close> (width and height), the \<open>n\<close>-th
  call of \<^verbatim>\<open>shared.RandomCryptoString\<close>, and \<^verbatim>\<open>operationCreate\<close> (an error or the
  operation's number).
\<close>

record request_env =
  containerLoadByName :: "string \<Rightarrow> error + container_info"
  ReadAll_Body :: "error + string"
  Unmarshal_post :: "string \<Rightarrow> error + int \<times> int"
  RandomCryptoString :: "nat \<Rightarrow> error + string"
  operationCreate :: "consoleWs \<Rightarrow> error + nat"

datatype response =
    SmartError error
  | BadRequest error
  | InternalError error
  | OperationResponse nat

text \<open>
  What a run of the handler did besides answering: whether it allocated a session
  (line 257), how many secrets it drew, and the session it registered as an operation.
\<close>

record effects =
  session_allocated :: bool
  secrets_drawn :: nat
  operation :: "consoleWs option"

text \<open>
  Lines 272-277: \<^verbatim>\<open>for i := -1; i < len(ws.conns)-1; i++\<close>, with \<open>n\<close> for
  \<^verbatim>\<open>len(ws.conns)-1\<close> and \<open>k\<close> the number of secrets drawn so far. The result is that
  number and the error or the filled \<^verbatim>\<open>ws.fds\<close>.
\<close>

function draw_secrets ::
  "(nat \<Rightarrow> error + string) \<Rightarrow> int \<Rightarrow> int \<Rightarrow> nat \<Rightarrow> (int \<times> string) list
     \<Rightarrow> nat \<times> (error + (int \<times> string) list)" where
  "draw_secrets rnd i n k m =
     (if i < n then
        (case rnd k of
          Inl err \<Rightarrow> (Suc k, Inl err)
        | Inr secret \<Rightarrow> draw_secrets rnd (i + 1) n (Suc k) (AList.update i secret m))
      else (k, Inr m))"
  by pat_completeness auto
termination
  by (relation "measure (\<lambda>(rnd, i, n, k, m). nat (n - i))") auto

definition containerConsolePost :: "request_env \<Rightarrow> string \<Rightarrow> response \<times> effects" where
  "containerConsolePost d name =
     (let none = \<lparr>session_allocated = False, secrets_drawn = 0, operation = None\<rparr> in
      case containerLoadByName d name of
        Inl err \<Rightarrow> (SmartError err, none)
      | Inr c \<Rightarrow>
          if \<not> IsRunning c then (BadRequest (Errorf ''Container is not running''), none)
          else if IsFrozen c then (BadRequest (Errorf ''Container is frozen''), none)
          else case ReadAll_Body d of
            Inl err \<Rightarrow> (BadRequest err, none)
          | Inr buf \<Rightarrow>
              (case Unmarshal_post d buf of
                Inl err \<Rightarrow> (BadRequest err, none)
              | Inr (post_Width, post_Height) \<Rightarrow>
                  (let made = none\<lparr>session_allocated := True\<rparr> in
                   case IdmapSet c of
                     Inl err \<Rightarrow> (InternalError err, made)
                   | Inr idmapset \<Rightarrow>
                       (let (uid, gid) = (case idmapset of None \<Rightarrow> (0, 0) | Some shifted \<Rightarrow> shifted);
                            conns0 = [(-1, None), (0, None)]
                        in case draw_secrets (RandomCryptoString d) (-1) (int (length conns0) - 1) 0 [] of
                          (k, Inl err) \<Rightarrow> (InternalError err, made\<lparr>secrets_drawn := k\<rparr>)
                        | (k, Inr secrets) \<Rightarrow>
                            (let ws = \<lparr>container = Name c, rootUid = uid, rootGid = gid,
                                       conns = conns0,
                                       allConnected = make_chan 1, controlConnected = make_chan 1,
                                       fds = secrets, width = post_Width, height = post_Height\<rparr>
                             in case operationCreate d ws of
                               Inl err \<Rightarrow> (InternalError err, made\<lparr>secrets_drawn := k\<rparr>)
                             | Inr op \<Rightarrow>
                                 (OperationResponse op,
                                  made\<lparr>secrets_drawn := k, operation := Some ws\<rparr>))))))"

subsection \<open>Do and its goroutines\<close>

text \<open>
  \<^verbatim>\<open>Do\<close> runs beside two goroutines it starts and beside the handshake requests that the
  operation's HTTP surface serves. Each activity is a program counter named after the
  statement it is about to run; a schedule is a list of actions, each one step of one
  activity. A step of an activity that is blocked (in a receive, a send or a wait) leaves
  the state as it is.
\<close>

datatype main_pc =
    M_WaitAllConnected      \<comment> \<open>line 107, \<^verbatim>\<open><-s.allConnected\<close>\<close>
  | M_OpenPty               \<comment> \<open>lines 109-115\<close>
  | M_InitSize              \<comment> \<open>lines 117-119\<close>
  | M_StartControl          \<comment> \<open>lines 121-125: \<^verbatim>\<open>controlExit\<close>, \<^verbatim>\<open>wgEOF.Add(1)\<close>, \<^verbatim>\<open>go\<close>\<close>
  | M_StartMirror           \<comment> \<open>line 187, \<^verbatim>\<open>go\<close>\<close>
  | M_Console               \<comment> \<open>lines 221-226\<close>
  | M_CloseSlave            \<comment> \<open>line 204\<close>
  | M_LoadControl           \<comment> \<open>lines 206-210\<close>
  | M_SendControlExit       \<comment> \<open>line 211, \<^verbatim>\<open>controlExit <- true\<close>\<close>
  | M_WaitEOF               \<comment> \<open>line 214, \<^verbatim>\<open>wgEOF.Wait()\<close>\<close>
  | M_CloseMaster           \<comment> \<open>lines 216-218\<close>
  | M_Returned "error option"

datatype control_pc =
    C_NotStarted
  | C_Select                \<comment> \<open>lines 126-132\<close>
  | C_Loop                  \<comment> \<open>lines 134-184\<close>
  | C_Returned

datatype mirror_pc =
    R_NotStarted
  | R_LoadConn              \<comment> \<open>lines 188-190\<close>
  | R_StartMirror           \<comment> \<open>line 193\<close>
  | R_WaitRead              \<comment> \<open>line 195, \<^verbatim>\<open><-readDone\<close>\<close>
  | R_WaitWrite             \<comment> \<open>line 196, \<^verbatim>\<open><-writeDone\<close>\<close>
  | R_CloseConn             \<comment> \<open>line 199\<close>
  | R_Done                  \<comment> \<open>line 200, \<^verbatim>\<open>wgEOF.Done()\<close>\<close>
  | R_Returned

text \<open>The steps of the shutdown whose order matters, logged as they happen.\<close>

datatype event =
    E_CloseSlave
  | E_EvalControl           \<comment> \<open>the test \<^verbatim>\<open>conn == nil\<close> of line 210\<close>
  | E_ReadDone
  | E_WriteDone
  | E_CloseMaster

record state =
  ws :: consoleWs
  to_check :: nat
  main :: main_pc
  control :: control_pc
  mirror :: mirror_pc
  cmdErr :: "error option"
  wgEOF :: nat
  the_pty :: pty
  mirror_conn :: "conn option"
  read_done :: bool
  write_done :: bool
  data_closed :: bool
  panicked :: bool
  events :: "event list"

text \<open>
  \<open>to_check\<close> counts the data-channel handshake requests that have stored their connection
  (line 79) and have not yet run the check of line 87; \<open>read_done\<close> and \<open>write_done\<close> say
  that a direction of the mirror has reported on its channel.
\<close>

definition init_state :: "consoleWs \<Rightarrow> state" where
  "init_state w =
     \<lparr>ws = w, to_check = 0, main = M_WaitAllConnected, control = C_NotStarted,
      mirror = R_NotStarted, cmdErr = None, wgEOF = 0,
      the_pty = \<lparr>opened = False, winsize = None, resizes = [], slave_closed = False,
                 master_closed = False\<rparr>,
      mirror_conn = None, read_done = False, write_done = False, data_closed = False,
      panicked = False, events = []\<rparr>"

text \<open>\<^verbatim>\<open>s.conns[k]\<close>: nil when the key is missing or the slot holds nil.\<close>

definition get_conn :: "(int \<times> conn option) list \<Rightarrow> int \<Rightarrow> conn option" where
  "get_conn cs k = (case map_of cs k of None \<Rightarrow> None | Some c \<Rightarrow> c)"

text \<open>
  One step of \<^verbatim>\<open>Do\<close> itself (lines 106-227, with \<^verbatim>\<open>finisher\<close> of lines 203-219 in
  place). The send on the unbuffered \<^verbatim>\<open>controlExit\<close> completes only together with the
  receive in the control goroutine's \<^verbatim>\<open>select\<close>.
\<close>

definition main_step :: "environment \<Rightarrow> state \<Rightarrow> state" where
  "main_step env s =
     (case main s of
       M_WaitAllConnected \<Rightarrow>
         (case chan_recv (allConnected (ws s)) of
           None \<Rightarrow> s
         | Some ch \<Rightarrow> s\<lparr>ws := (ws s)\<lparr>allConnected := ch\<rparr>, main := M_OpenPty\<rparr>)
     | M_OpenPty \<Rightarrow>
         (case OpenPty env of
           Some err \<Rightarrow> s\<lparr>main := M_Returned (Some err)\<rparr>
         | None \<Rightarrow> s\<lparr>the_pty := (the_pty s)\<lparr>opened := True\<rparr>, main := M_InitSize\<rparr>)
     | M_InitSize \<Rightarrow>
         (if 0 < width (ws s) \<and> 0 < height (ws s)
          then s\<lparr>the_pty := snd (call_SetSize env (width (ws s)) (height (ws s)) (the_pty s)),
                 main := M_StartControl\<rparr>
          else s\<lparr>main := M_StartControl\<rparr>)
     | M_StartControl \<Rightarrow> s\<lparr>wgEOF := wgEOF s + 1, control := C_Select, main := M_StartMirror\<rparr>
     | M_StartMirror \<Rightarrow> s\<lparr>mirror := R_LoadConn, main := M_Console\<rparr>
     | M_Console \<Rightarrow>
         (case Console env of
           Some err \<Rightarrow> s\<lparr>main := M_Returned (Some err)\<rparr>
         | None \<Rightarrow> s\<lparr>cmdErr := None, main := M_CloseSlave\<rparr>)
     | M_CloseSlave \<Rightarrow>
         s\<lparr>the_pty := (the_pty s)\<lparr>slave_closed := True\<rparr>,
           events := events s @ [E_CloseSlave], main := M_LoadControl\<rparr>
     | M_LoadControl \<Rightarrow>
         (if get_conn (conns (ws s)) (-1) = None
          then s\<lparr>events := events s @ [E_EvalControl], main := M_SendControlExit\<rparr>
          else s\<lparr>events := events s @ [E_EvalControl], main := M_WaitEOF\<rparr>)
     | M_SendControlExit \<Rightarrow>
         (if control s = C_Select then s\<lparr>control := C_Returned, main := M_WaitEOF\<rparr> else s)
     | M_WaitEOF \<Rightarrow> (if wgEOF s = 0 then s\<lparr>main := M_CloseMaster\<rparr> else s)
     | M_CloseMaster \<Rightarrow>
         s\<lparr>the_pty := (the_pty s)\<lparr>master_closed := True\<rparr>,
           events := events s @ [E_CloseMaster], main := M_Returned (cmdErr s)\<rparr>
     | M_Returned r \<Rightarrow> s)"

text \<open>
  The control goroutine (lines 125-185): the branch \<^verbatim>\<open>case <-s.controlConnected\<close> of its
  \<^verbatim>\<open>select\<close>, and one iteration of its loop on a frame. The loop calls \<^verbatim>\<open>NextReader\<close> on
  \<^verbatim>\<open>s.conns[-1]\<close>; on a nil connection that is a nil dereference.
\<close>

definition control_select :: "state \<Rightarrow> state" where
  "control_select s =
     (if control s = C_Select then
        (case chan_recv (controlConnected (ws s)) of
          None \<Rightarrow> s
        | Some ch \<Rightarrow> s\<lparr>ws := (ws s)\<lparr>controlConnected := ch\<rparr>, control := C_Loop\<rparr>)
      else s)"

definition control_frame :: "environment \<Rightarrow> frame \<Rightarrow> state \<Rightarrow> state" where
  "control_frame env f s =
     (if control s = C_Loop then
        (case get_conn (conns (ws s)) (-1) of
          None \<Rightarrow> s\<lparr>panicked := True\<rparr>
        | Some c \<Rightarrow>
            (case control_iter env f (the_pty s) of
              (continue, p') \<Rightarrow>
                s\<lparr>the_pty := p', control := (if continue then C_Loop else C_Returned)\<rparr>))
      else s)"

text \<open>
  The mirror goroutine (lines 187-201). \<^verbatim>\<open>shared.WebsocketConsoleMirror\<close> is not in this
  file; it hands back the two channels on which its directions report.
\<close>

definition mirror_step :: "state \<Rightarrow> state" where
  "mirror_step s =
     (case mirror s of
       R_NotStarted \<Rightarrow> s
     | R_LoadConn \<Rightarrow> s\<lparr>mirror_conn := get_conn (conns (ws s)) 0, mirror := R_StartMirror\<rparr>
     | R_StartMirror \<Rightarrow>
         (case mirror_conn s of
           None \<Rightarrow> s\<lparr>panicked := True\<rparr>
         | Some c \<Rightarrow> s\<lparr>mirror := R_WaitRead\<rparr>)
     | R_WaitRead \<Rightarrow> (if read_done s then s\<lparr>mirror := R_WaitWrite\<rparr> else s)
     | R_WaitWrite \<Rightarrow> (if write_done s then s\<lparr>mirror := R_CloseConn\<rparr> else s)
     | R_CloseConn \<Rightarrow> s\<lparr>data_closed := True, mirror := R_Done\<rparr>
     | R_Done \<Rightarrow>
         (if wgEOF s = 0 then s\<lparr>panicked := True\<rparr>
          else s\<lparr>wgEOF := wgEOF s - 1, mirror := R_Returned\<rparr>)
     | R_Returned \<Rightarrow> s)"

text \<open>
  Modelled from the spec: \<^verbatim>\<open>shared.WebsocketConsoleMirror\<close> is not in this file. By
  section 4.6 each of its two directions runs until its source is exhausted or fails and
  then reports completion, once, independently of the other. A direction can report once
  the mirror has been started.
\<close>

definition mirror_started :: "state \<Rightarrow> bool" where
  "mirror_started s =
     (mirror s = R_WaitRead \<or> mirror s = R_WaitWrite \<or> mirror s = R_CloseConn \<or>
      mirror s = R_Done \<or> mirror s = R_Returned)"

definition report_read :: "state \<Rightarrow> state" where
  "report_read s =
     (if mirror_started s \<and> \<not> read_done s
      then s\<lparr>read_done := True, events := events s @ [E_ReadDone]\<rparr> else s)"

definition report_write :: "state \<Rightarrow> state" where
  "report_write s =
     (if mirror_started s \<and> \<not> write_done s
      then s\<lparr>write_done := True, events := events s @ [E_WriteDone]\<rparr> else s)"

text \<open>
  A handshake request runs \<^verbatim>\<open>Connect\<close> in two steps, so that other requests and the
  goroutines can run between the store of line 79 and the check of line 87.
\<close>

definition handshake :: "string \<Rightarrow> error + conn \<Rightarrow> state \<Rightarrow> state" where
  "handshake secret upg s =
     (case Connect_bind (ws s) secret upg of
       (Finished r, w') \<Rightarrow> s\<lparr>ws := w'\<rparr>
     | (ToCheck, w') \<Rightarrow> s\<lparr>ws := w', to_check := Suc (to_check s)\<rparr>)"

definition handshake_check :: "state \<Rightarrow> state" where
  "handshake_check s =
     (if to_check s = 0 then s
      else s\<lparr>ws := snd (Connect_signal (ws s)), to_check := to_check s - 1\<rparr>)"

datatype action =
    Handshake string "error + conn"
  | HandshakeCheck
  | MainStep
  | ControlSelect
  | ControlFrame frame
  | MirrorStep
  | ReportRead
  | ReportWrite

text \<open>A panic in any goroutine ends the process: nothing runs after it.\<close>

definition step :: "environment \<Rightarrow> action \<Rightarrow> state \<Rightarrow> state" where
  "step env a s =
     (if panicked s then s
      else case a of
        Handshake secret upg \<Rightarrow> handshake secret upg s
      | HandshakeCheck \<Rightarrow> handshake_check s
      | MainStep \<Rightarrow> main_step env s
      | ControlSelect \<Rightarrow> control_select s
      | ControlFrame f \<Rightarrow> control_frame env f s
      | MirrorStep \<Rightarrow> mirror_step s
      | ReportRead \<Rightarrow> report_read s
      | ReportWrite \<Rightarrow> report_write s)"

fun run :: "environment \<Rightarrow> action list \<Rightarrow> state \<Rightarrow> state" where
  "run env [] s = s"
| "run env (a # rest) s = run env rest (step env a s)"

text \<open>
  \<open>precedes a b tr\<close>: no \<open>b\<close> stands in the log \<open>tr\<close> before the first \<open>a\<close> (and none at
  all when there is no \<open>a\<close>).
\<close>

definition precedes :: "event \<Rightarrow> event \<Rightarrow> event list \<Rightarrow> bool" where
  "precedes a b tr = (b \<notin> set (takeWhile (\<lambda>e. e \<noteq> a) tr))"

subsection \<open>Names used in the statements\<close>

text \<open>Lines 55-59: the key under which \<^verbatim>\<open>Metadata\<close> files the channel \<open>fd\<close>.\<close>

definition channel_key :: "int \<Rightarrow> string" where
  "channel_key fd = (if fd = -1 then ''control'' else Itoa fd)"

text \<open>A session for the examples: control secret \<open>ctl\<close>, data secret \<open>dat\<close>, 80 by 24.\<close>

definition example_ws :: consoleWs where
  "example_ws = new_consoleWs ''c1'' 0 0 [(-1, ''ctl''), (0, ''dat'')] 80 24"

text \<open>
  Callees for the examples: the pty opens, a resize succeeds when both sides are positive,
  the attached process exits with nil; four control payloads decode, three numerals parse.
\<close>

definition example_env :: environment where
  "example_env =
     \<lparr>OpenPty = None,
      SetSize = (\<lambda>n w h. if 0 < w \<and> 0 < h then None else Some (External 22)),
      Console = None,
      Unmarshal = (\<lambda>buf.
         if buf = ''resize 100 30'' then
           Inr \<lparr>Command = ''window-resize'', Args = [(''width'', ''100''), (''height'', ''30'')]\<rparr>
         else if buf = ''resize x 30'' then
           Inr \<lparr>Command = ''window-resize'', Args = [(''width'', ''x''), (''height'', ''30'')]\<rparr>
         else if buf = ''resize 0 0'' then
           Inr \<lparr>Command = ''window-resize'', Args = [(''width'', ''0''), (''height'', ''0'')]\<rparr>
         else if buf = ''bell'' then Inr \<lparr>Command = ''bell'', Args = []\<rparr>
         else Inl (External 1)),
      Atoi = (\<lambda>str. if str = ''100'' then Inr 100 else if str = ''30'' then Inr 30
                     else if str = ''0'' then Inr 0 else Inl (External 2))\<rparr>"

text \<open>
  The three ways an iteration leaves the loop (lines 140-153): the frame is a close
  message, \<^verbatim>\<open>NextReader\<close> failed, or \<^verbatim>\<open>ReadAll\<close> failed.
\<close>

definition ends_read :: "frame \<Rightarrow> bool" where
  "ends_read f = (msg_type f = CloseMessage \<or> next_err f \<noteq> None \<or> isl (read_all f))"

text \<open>A text frame with the given payload, read without error.\<close>

definition text_frame :: "string \<Rightarrow> frame" where
  "text_frame buf = \<lparr>msg_type = 1, next_err = None, read_all = Inr buf\<rparr>"

definition fresh_pty :: pty where
  "fresh_pty = \<lparr>opened = True, winsize = None, resizes = [], slave_closed = False,
                 master_closed = False\<rparr>"

text \<open>
  A daemon for the examples: one container \<open>c1\<close> with the given running and frozen
  flags and no id map, a body that decodes to 80 by 24, secrets \<open>s0\<close>, \<open>s1\<close>, ...
\<close>

definition example_daemon :: "bool \<Rightarrow> bool \<Rightarrow> request_env" where
  "example_daemon running frozen =
     \<lparr>containerLoadByName = (\<lambda>name.
         if name = ''c1''
         then Inr \<lparr>Name = ''c1'', IsRunning = running, IsFrozen = frozen, IdmapSet = Inr None\<rparr>
         else Inl (External 404)),
      ReadAll_Body = Inr ''{}'',
      Unmarshal_post = (\<lambda>buf. Inr (80, 24)),
      RandomCryptoString = (\<lambda>n. Inr (CHR ''s'' # Itoa (int n))),
      operationCreate = (\<lambda>w. Inr 1)\<rparr>"

text \<open>The sends on a channel that no receive has taken yet: buffered or blocked.\<close>

definition unreceived :: "chan \<Rightarrow> nat" where
  "unreceived c = buffered c + blocked c"

subsection \<open>Invariants of the schedule\<close>

text \<open>
  The main pcs at which \<^verbatim>\<open>wgEOF.Add(1)\<close> has run and \<^verbatim>\<open>wgEOF.Wait()\<close> has not yet
  returned.
\<close>

fun before_wait :: "main_pc \<Rightarrow> bool" where
  "before_wait M_StartMirror = True"
| "before_wait M_Console = True"
| "before_wait M_CloseSlave = True"
| "before_wait M_LoadControl = True"
| "before_wait M_SendControlExit = True"
| "before_wait M_WaitEOF = True"
| "before_wait pc = False"

text \<open>The mirror pcs after \<^verbatim>\<open><-readDone\<close>, and after \<^verbatim>\<open><-writeDone\<close>.\<close>

fun past_read :: "mirror_pc \<Rightarrow> bool" where
  "past_read R_WaitWrite = True"
| "past_read R_CloseConn = True"
| "past_read R_Done = True"
| "past_read R_Returned = True"
| "past_read pc = False"

fun past_write :: "mirror_pc \<Rightarrow> bool" where
  "past_write R_CloseConn = True"
| "past_write R_Done = True"
| "past_write R_Returned = True"
| "past_write pc = False"

text \<open>The main pcs at which the mirror goroutine has not been started.\<close>

fun before_mirror :: "main_pc \<Rightarrow> bool" where
  "before_mirror M_WaitAllConnected = True"
| "before_mirror M_OpenPty = True"
| "before_mirror M_InitSize = True"
| "before_mirror M_StartControl = True"
| "before_mirror M_StartMirror = True"
| "before_mirror pc = False"

definition shutdown_inv :: "state \<Rightarrow> bool" where
  "shutdown_inv s =
     ((before_mirror (main s) \<longrightarrow> mirror s = R_NotStarted) \<and>
      (before_wait (main s) \<and> mirror s \<noteq> R_Returned \<longrightarrow> 0 < wgEOF s) \<and>
      (main s = M_CloseMaster \<longrightarrow> mirror s = R_Returned) \<and>
      (past_read (mirror s) \<longrightarrow> read_done s) \<and>
      (past_write (mirror s) \<longrightarrow> write_done s) \<and>
      (read_done s \<longrightarrow> E_ReadDone \<in> set (events s)) \<and>
      (write_done s \<longrightarrow> E_WriteDone \<in> set (events s)) \<and>
      (main s = M_LoadControl \<longrightarrow> E_CloseSlave \<in> set (events s)) \<and>
      (master_closed (the_pty s) \<longrightarrow> read_done s \<and> write_done s) \<and>
      precedes E_CloseSlave E_EvalControl (events s) \<and>
      precedes E_ReadDone E_CloseMaster (events s) \<and>
      precedes E_WriteDone E_CloseMaster (events s))"

text \<open>The main pcs at which \<^verbatim>\<open>shared.OpenPty\<close> has not yet returned.\<close>

fun before_pty :: "main_pc \<Rightarrow> bool" where
  "before_pty M_WaitAllConnected = True"
| "before_pty M_OpenPty = True"
| "before_pty pc = False"

text \<open>
  While the control slot is nil: no control signal is buffered, the control goroutine is
  not in its loop, and the only resize made is the initial one.
\<close>

definition size_inv :: "state \<Rightarrow> bool" where
  "size_inv s =
     ((before_pty (main s) \<longrightarrow> \<not> opened (the_pty s)) \<and>
      (main s = M_InitSize \<longrightarrow> opened (the_pty s)) \<and>
      (get_conn (conns (ws s)) (-1) = None \<longrightarrow>
         buffered (controlConnected (ws s)) = 0 \<and> control s \<noteq> C_Loop \<and>
         resizes (the_pty s) =
           (if opened (the_pty s) \<and> main s \<noteq> M_InitSize \<and> 0 < width (ws s) \<and> 0 < height (ws s)
            then [(width (ws s), height (ws s))] else [])))"

text \<open>The main pcs inside \<^verbatim>\<open>finisher\<close> (lines 203-219).\<close>

fun in_finisher :: "main_pc \<Rightarrow> bool" where
  "in_finisher M_CloseSlave = True"
| "in_finisher M_LoadControl = True"
| "in_finisher M_SendControlExit = True"
| "in_finisher M_WaitEOF = True"
| "in_finisher M_CloseMaster = True"
| "in_finisher pc = False"

definition unfinished_inv :: "state \<Rightarrow> bool" where
  "unfinished_inv s =
     (\<not> in_finisher (main s) \<and> main s \<noteq> M_Returned None \<and>
      \<not> slave_closed (the_pty s) \<and> \<not> master_closed (the_pty s) \<and>
      set (events s) \<subseteq> {E_ReadDone, E_WriteDone})"

text \<open>
  A schedule for the examples: the data handshake, \<^verbatim>\<open>Do\<close> up to the attach call's return,
  the mirror until both directions have reported and it has called \<^verbatim>\<open>wgEOF.Done()\<close>,
  then the rest of \<^verbatim>\<open>Do\<close>. No control socket connects.
\<close>

definition example_schedule :: "action list" where
  "example_schedule =
     [Handshake ''dat'' (Inr 7), HandshakeCheck,
      MainStep, MainStep, MainStep, MainStep, MainStep, MainStep,
      MirrorStep, MirrorStep, ReportRead, ReportWrite,
      MirrorStep, MirrorStep, MirrorStep, MirrorStep,
      MainStep, MainStep, MainStep, MainStep, MainStep]"

section \<open>Properties\<close>

subsection \<open>Connect\<close>

lemma find_secret_None: "find_secret secret xs = None \<longleftrightarrow> secret \<notin> snd ` set xs"
  by (induction xs) (auto simp: image_iff split: if_splits)

lemma get_conn_update:
  "get_conn (AList.update k v cs) fd = (if fd = k then v else get_conn cs fd)"
  by (simp add: get_conn_def update_conv)

lemma Connect_bind_keeps:
  "get_conn (conns s) fd \<noteq> None \<Longrightarrow> get_conn (conns (snd (Connect_bind s secret upg))) fd \<noteq> None"
  by (auto simp: Connect_bind_def get_conn_update Let_def split: option.splits sum.splits prod.splits)

lemma Connect_signal_conns: "conns (snd (Connect_signal s)) = conns s"
  by (auto simp: Connect_signal_def split: prod.splits)

lemma Connect_conns:
  "conns (snd (Connect s secret upg)) = conns (snd (Connect_bind s secret upg))"
  by (auto simp: Connect_def Connect_signal_conns split: prod.splits bound.splits)

lemma handshake_conns:
  "conns (ws (handshake secret upg s)) = conns (snd (Connect_bind (ws s) secret upg))"
  by (auto simp: handshake_def split: prod.splits bound.splits)

lemma handshake_check_conns: "conns (ws (handshake_check s)) = conns (ws s)"
  by (simp add: handshake_check_def Connect_signal_conns)

lemma main_step_conns: "conns (ws (main_step env s)) = conns (ws s)"
  by (cases "main s") (auto simp: main_step_def split: option.splits)

lemma control_select_conns: "conns (ws (control_select s)) = conns (ws s)"
  by (auto simp: control_select_def split: option.splits)

lemma control_frame_ws: "ws (control_frame env f s) = ws s"
  by (auto simp: control_frame_def split: option.splits prod.splits)

lemma mirror_step_ws: "ws (mirror_step s) = ws s"
  by (cases "mirror s") (auto simp: mirror_step_def split: option.splits)

lemma report_read_ws: "ws (report_read s) = ws s"
  by (simp add: report_read_def)

lemma report_write_ws: "ws (report_write s) = ws s"
  by (simp add: report_write_def)

lemma step_conns:
  "conns (ws (step env a s)) =
     (if panicked s then conns (ws s)
      else case a of Handshake secret upg \<Rightarrow> conns (snd (Connect_bind (ws s) secret upg))
           | _ \<Rightarrow> conns (ws s))"
  by (cases a) (simp_all add: step_def handshake_conns handshake_check_conns main_step_conns
      control_select_conns control_frame_ws mirror_step_ws report_read_ws report_write_ws)

lemma step_keeps_slot:
  assumes "get_conn (conns (ws s)) fd \<noteq> None"
  shows "get_conn (conns (ws (step env a s))) fd \<noteq> None"
proof (cases a)
  case (Handshake secret upg)
  show ?thesis
    using assms Connect_bind_keeps[OF assms, of secret upg]
    by (simp add: step_conns Handshake del: not_None_eq)
qed (use assms in \<open>simp_all add: step_conns del: not_None_eq\<close>)

lemma run_keeps_slot:
  "get_conn (conns (ws s)) fd \<noteq> None \<Longrightarrow> get_conn (conns (ws (run env acts s))) fd \<noteq> None"
proof (induction acts arbitrary: s)
  case Nil
  then show ?case by simp
next
  case (Cons a acts)
  from Cons.prems have "get_conn (conns (ws (step env a s))) fd \<noteq> None"
    by (rule step_keeps_slot)
  then have "get_conn (conns (ws (run env acts (step env a s)))) fd \<noteq> None"
    by (rule Cons.IH)
  then show ?case by simp
qed

text \<open>
  C2, as amended. A handshake whose secret is empty fails with the error
  \<^verbatim>\<open>missing secret\<close> of line 68, which is not the permission error; a handshake whose
  secret is not empty and is no registered channel's secret fails with
  \<^verbatim>\<open>os.ErrPermission\<close>. In both cases the session, and with it every connection slot, is
  exactly as before the call.
\<close>

theorem Connect_unknown_token:
  "(secret = [] \<longrightarrow> Connect s secret upg = (Returned (Some (Errorf ''missing secret'')), s)) \<and>
   (secret \<noteq> [] \<and> secret \<notin> snd ` set (fds s) \<longrightarrow>
      Connect s secret upg = (Returned (Some ErrPermission), s))"
  using find_secret_None[of secret "fds s"] by (auto simp: Connect_def Connect_bind_def)

theorem Connect_unknown_token_witness:
  "Connect example_ws [] (Inr 7) = (Returned (Some (Errorf ''missing secret'')), example_ws) \<and>
   Connect example_ws ''nope'' (Inr 7) = (Returned (Some ErrPermission), example_ws)"
proof -
  have h: "''nope'' \<noteq> [] \<and> ''nope'' \<notin> snd ` set (fds example_ws)"
    by (simp add: example_ws_def new_consoleWs_def)
  show ?thesis
    using h Connect_unknown_token[of "[]" example_ws "Inr 7"]
      Connect_unknown_token[of "''nope''" example_ws "Inr 7"]
    by blast
qed

text \<open>
  C2 as stated fails: with the secret missing (the empty string) the call does not fail
  with the permission error.
\<close>

theorem Connect_missing_secret_counterexample:
  "fst (Connect example_ws [] (Inr 7)) \<noteq> Returned (Some ErrPermission)"
  by (simp add: Connect_def Connect_bind_def)

text \<open>
  C3, as amended. A connection slot that is present stays present through every schedule
  of handshakes and goroutine steps, so a slot goes from absent to present at most once
  and is never reset. Binding is not exclusive: every handshake that presents a
  registered secret and whose upgrade succeeds stores its connection in the channel's
  slot, whatever the slot held.
\<close>

theorem slot_never_reset_but_rebound:
  "(get_conn (conns (ws s)) fd \<noteq> None \<longrightarrow> get_conn (conns (ws (run env acts s))) fd \<noteq> None) \<and>
   (secret \<noteq> [] \<and> find_secret secret (fds w) = Some fd \<and> upg = Inr c \<longrightarrow>
      get_conn (conns (snd (Connect w secret upg))) fd = Some c)"
proof
  show "get_conn (conns (ws s)) fd \<noteq> None \<longrightarrow> get_conn (conns (ws (run env acts s))) fd \<noteq> None"
    using run_keeps_slot[of s fd env acts] by blast
  show "secret \<noteq> [] \<and> find_secret secret (fds w) = Some fd \<and> upg = Inr c \<longrightarrow>
      get_conn (conns (snd (Connect w secret upg))) fd = Some c"
    by (auto simp: Connect_conns Connect_bind_def get_conn_update Let_def split: prod.splits)
qed

theorem slot_never_reset_but_rebound_witness:
  "get_conn (conns (ws (init_state (snd (Connect example_ws ''dat'' (Inr 7)))))) 0 \<noteq> None \<and>
   get_conn (conns (ws (run example_env [Handshake ''dat'' (Inr 8), HandshakeCheck, MainStep]
        (init_state (snd (Connect example_ws ''dat'' (Inr 7))))))) 0 \<noteq> None \<and>
   get_conn (conns (snd (Connect example_ws ''dat'' (Inr 7)))) 0 = Some 7"
proof -
  have a: "get_conn (conns (ws (init_state (snd (Connect example_ws ''dat'' (Inr 7)))))) 0 \<noteq> None"
    by code_simp
  have b: "''dat'' \<noteq> [] \<and> find_secret ''dat'' (fds example_ws) = Some 0 \<and>
      (Inr 7 :: error + conn) = Inr 7"
    by code_simp
  show ?thesis
    using a b
      slot_never_reset_but_rebound[of "init_state (snd (Connect example_ws ''dat'' (Inr 7)))" 0
        example_env "[Handshake ''dat'' (Inr 8), HandshakeCheck, MainStep]"
        "''dat''" example_ws "Inr 7" 7]
    by blast
qed

text \<open>
  C3 as stated fails: of two handshakes with the data channel's secret both bind the slot,
  the second replacing the first one's connection.
\<close>

theorem Connect_same_token_twice_counterexample:
  "get_conn (conns (snd (Connect example_ws ''dat'' (Inr 7)))) 0 = Some 7 \<and>
   get_conn (conns (snd (Connect (snd (Connect example_ws ''dat'' (Inr 7))) ''dat'' (Inr 8)))) 0
     = Some 8"
  by (simp add: example_ws_def new_consoleWs_def Connect_def Connect_bind_def Connect_signal_def
      chan_send_def make_chan_def get_conn_def)

text \<open>
  C9, as amended. The ready signals are plain sends on channels of capacity one. A
  handshake that reaches its send while the channel's buffer is full does not fail and is
  not dropped: after storing its connection it blocks in the send, as one more blocked
  sender of that channel.
\<close>

theorem Connect_second_signal_blocks:
  "secret \<noteq> [] \<and> find_secret secret (fds s) = Some fd \<and> upg = Inr c \<and>
   (if fd = -1 then cap (controlConnected s) \<le> buffered (controlConnected s)
    else cap (allConnected s) \<le> buffered (allConnected s) \<and>
         \<not> has_unbound_data (AList.update fd (Some c) (conns s)))
   \<Longrightarrow> fst (Connect s secret upg) = Blocked \<and>
       conns (snd (Connect s secret upg)) = AList.update fd (Some c) (conns s) \<and>
       (if fd = -1
        then blocked (controlConnected (snd (Connect s secret upg))) = Suc (blocked (controlConnected s))
        else blocked (allConnected (snd (Connect s secret upg))) = Suc (blocked (allConnected s)))"
  by (auto simp: Connect_def Connect_bind_def Connect_signal_def chan_send_def Let_def
      split: prod.splits if_splits)

theorem Connect_second_signal_blocks_witness:
  "fst (Connect (snd (Connect example_ws ''ctl'' (Inr 7))) ''ctl'' (Inr 8)) = Blocked \<and>
   get_conn (conns (snd (Connect (snd (Connect example_ws ''ctl'' (Inr 7))) ''ctl'' (Inr 8)))) (-1)
     = Some 8 \<and>
   blocked (controlConnected (snd (Connect (snd (Connect example_ws ''ctl'' (Inr 7))) ''ctl'' (Inr 8))))
     = 1"
proof -
  let ?s = "snd (Connect example_ws ''ctl'' (Inr 7))"
  have h: "''ctl'' \<noteq> [] \<and> find_secret ''ctl'' (fds ?s) = Some (-1) \<and>
      (Inr 8 :: error + conn) = Inr 8 \<and>
      (if (-1::int) = -1 then cap (controlConnected ?s) \<le> buffered (controlConnected ?s)
       else cap (allConnected ?s) \<le> buffered (allConnected ?s) \<and>
            \<not> has_unbound_data (AList.update (-1) (Some 8) (conns ?s)))"
    by code_simp
  have c: "get_conn (AList.update (-1) (Some 8) (conns ?s)) (-1) = Some 8"
    by (simp add: get_conn_update)
  have b: "blocked (controlConnected ?s) = 0"
    by code_simp
  from Connect_second_signal_blocks[OF h] c b show ?thesis by simp
qed

text \<open>
  C9 as stated fails: a second control handshake, made while the first one's signal is
  still in the buffer, blocks.
\<close>

theorem Connect_second_signal_counterexample:
  "fst (Connect (snd (Connect example_ws ''ctl'' (Inr 7))) ''ctl'' (Inr 8)) = Blocked"
  by (simp add: example_ws_def new_consoleWs_def Connect_def Connect_bind_def Connect_signal_def
      chan_send_def make_chan_def)

subsection \<open>Metadata\<close>

lemma digit_char_inj: "a < 10 \<Longrightarrow> b < 10 \<Longrightarrow> digit_char a = digit_char b \<Longrightarrow> a = b"
proof -
  assume a: "a < 10" and b: "b < 10" and e: "digit_char a = digit_char b"
  have d: "distinct ''0123456789''" by simp
  have l: "length ''0123456789'' = 10" by simp
  from e have "''0123456789'' ! a = ''0123456789'' ! b" by (simp add: digit_char_def)
  with d a b l show "a = b" by (metis nth_eq_iff_index_eq)
qed

lemma digit_char_in: "d < 10 \<Longrightarrow> digit_char d \<in> set ''0123456789''"
  unfolding digit_char_def by (rule nth_mem) simp

lemma digits_nonempty: "digits n \<noteq> []"
  by (subst digits.simps) simp

lemma digits_set: "set (digits n) \<subseteq> set ''0123456789''"
proof (induction n rule: digits.induct)
  case (1 n)
  show ?case
  proof (cases "n < 10")
    case True
    then show ?thesis using digit_char_in[of n] by (subst digits.simps) simp
  next
    case False
    have "n mod 10 < 10" by simp
    then have "digit_char (n mod 10) \<in> set ''0123456789''" by (rule digit_char_in)
    with False 1 show ?thesis by (subst digits.simps) simp
  qed
qed

lemma digits_inj: "digits n = digits m \<Longrightarrow> n = m"
proof (induction n arbitrary: m rule: digits.induct)
  case (1 n)
  show ?case
  proof (cases "n < 10")
    case True
    note n = this
    show ?thesis
    proof (cases "m < 10")
      case True
      from n have "digits n = [digit_char n]" by (subst digits.simps) simp
      moreover from True have "digits m = [digit_char m]" by (subst digits.simps) simp
      ultimately have "digit_char n = digit_char m" using 1(2) by simp
      with n True show ?thesis by (rule digit_char_inj)
    next
      case False
      then have "digits m = digits (m div 10) @ [digit_char (m mod 10)]" by (subst digits.simps) simp
      moreover from n have "digits n = [digit_char n]" by (subst digits.simps) simp
      ultimately show ?thesis using 1(2) digits_nonempty[of "m div 10"] by simp
    qed
  next
    case False
    note n = this
    then have dn: "digits n = digits (n div 10) @ [digit_char (n mod 10)]" by (subst digits.simps) simp
    show ?thesis
    proof (cases "m < 10")
      case True
      then have "digits m = [digit_char m]" by (subst digits.simps) simp
      with dn 1(2) digits_nonempty[of "n div 10"] show ?thesis by simp
    next
      case False
      then have dm: "digits m = digits (m div 10) @ [digit_char (m mod 10)]" by (subst digits.simps) simp
      from dn dm 1(2) have e1: "digits (n div 10) = digits (m div 10)"
        and e2: "digit_char (n mod 10) = digit_char (m mod 10)" by simp_all
      from 1(1)[OF n e1] have "n div 10 = m div 10" .
      moreover from e2 have "n mod 10 = m mod 10" by (intro digit_char_inj) simp_all
      ultimately show ?thesis by (metis div_mult_mod_eq)
    qed
  qed
qed

lemma Itoa_inj: "Itoa i = Itoa j \<Longrightarrow> i = j"
proof -
  assume e: "Itoa i = Itoa j"
  have nm: "\<And>n. hd (digits n) \<noteq> CHR ''-''"
  proof -
    fix n
    have "hd (digits n) \<in> set (digits n)" using digits_nonempty by simp
    then have "hd (digits n) \<in> set ''0123456789''" using digits_set by blast
    then show "hd (digits n) \<noteq> CHR ''-''" by auto
  qed
  show "i = j"
  proof (cases "i < 0")
    case True
    note i = this
    show ?thesis
    proof (cases "j < 0")
      case True
      with i e have "digits (nat (- i)) = digits (nat (- j))" by (simp add: Itoa_def)
      then have "nat (- i) = nat (- j)" by (rule digits_inj)
      with i True show ?thesis by simp
    next
      case False
      with i e have "CHR ''-'' # digits (nat (- i)) = digits (nat j)" by (simp add: Itoa_def)
      then have "hd (digits (nat j)) = CHR ''-''" by (metis list.sel(1))
      with nm show ?thesis by blast
    qed
  next
    case False
    note i = this
    show ?thesis
    proof (cases "j < 0")
      case True
      with i e have "digits (nat i) = CHR ''-'' # digits (nat (- j))" by (simp add: Itoa_def)
      then have "hd (digits (nat i)) = CHR ''-''" by (metis list.sel(1))
      with nm show ?thesis by blast
    next
      case False
      with i e have "digits (nat i) = digits (nat j)" by (simp add: Itoa_def)
      then have "nat i = nat j" by (rule digits_inj)
      with i False show ?thesis by simp
    qed
  qed
qed

lemma Itoa_not_control: "Itoa i \<noteq> ''control''"
proof
  assume e: "Itoa i = ''control''"
  show False
  proof (cases "i < 0")
    case True
    with e show False by (simp add: Itoa_def)
  next
    case False
    with e have "digits (nat i) = ''control''" by (simp add: Itoa_def)
    then have "CHR ''c'' \<in> set (digits (nat i))" by simp
    then have "CHR ''c'' \<in> set ''0123456789''" using digits_set by blast
    then show False by simp
  qed
qed

lemma channel_key_inj: "channel_key a = channel_key b \<Longrightarrow> a = b"
  using Itoa_not_control Itoa_inj by (auto simp: channel_key_def split: if_splits)


lemma Metadata_fds_Cons:
  "Metadata_fds ((fd, secret) # rest) acc
     = Metadata_fds rest (AList.update (channel_key fd) (JString secret) acc)"
  by (simp add: channel_key_def)

lemma Metadata_fds_keys:
  "fst ` set (Metadata_fds xs acc) = fst ` set acc \<union> channel_key ` fst ` set xs"
proof (induction xs arbitrary: acc)
  case Nil
  show ?case by simp
next
  case (Cons x xs)
  obtain fd secret where x: "x = (fd, secret)" by (cases x)
  have "fst ` set (Metadata_fds (x # xs) acc)
      = fst ` set (AList.update (channel_key fd) (JString secret) acc) \<union> channel_key ` fst ` set xs"
    unfolding x Metadata_fds_Cons by (rule Cons.IH)
  also have "fst ` set (AList.update (channel_key fd) (JString secret) acc)
      = {channel_key fd} \<union> fst ` set acc"
    by (rule dom_update)
  finally show ?case by (auto simp: x)
qed

lemma Metadata_fds_dist:
  "distinct (map fst acc) \<Longrightarrow> distinct (map fst (Metadata_fds xs acc))"
proof (induction xs arbitrary: acc)
  case Nil
  then show ?case by simp
next
  case (Cons x xs)
  obtain fd secret where x: "x = (fd, secret)" by (cases x)
  from Cons.prems have "distinct (map fst (AList.update (channel_key fd) (JString secret) acc))"
    by (rule distinct_update)
  then show ?case unfolding x Metadata_fds_Cons by (rule Cons.IH)
qed

lemma Metadata_fds_other:
  "k \<notin> channel_key ` fst ` set xs \<Longrightarrow> map_of (Metadata_fds xs acc) k = map_of acc k"
proof (induction xs arbitrary: acc)
  case Nil
  show ?case by simp
next
  case (Cons x xs)
  obtain fd secret where x: "x = (fd, secret)" by (cases x)
  from Cons.prems x have k: "k \<noteq> channel_key fd" and r: "k \<notin> channel_key ` fst ` set xs"
    by auto
  have "map_of (Metadata_fds (x # xs) acc) k
      = map_of (AList.update (channel_key fd) (JString secret) acc) k"
    unfolding x Metadata_fds_Cons using r by (rule Cons.IH)
  also have "\<dots> = map_of acc k" using k by (simp add: update_conv)
  finally show ?case .
qed

lemma Metadata_fds_lookup:
  "distinct (map fst xs) \<Longrightarrow> (fd, secret) \<in> set xs \<Longrightarrow>
   map_of (Metadata_fds xs acc) (channel_key fd) = Some (JString secret)"
proof (induction xs arbitrary: acc)
  case Nil
  then show ?case by simp
next
  case (Cons x xs)
  obtain fd' secret' where x: "x = (fd', secret')" by (cases x)
  have step: "Metadata_fds (x # xs) acc
      = Metadata_fds xs (AList.update (channel_key fd') (JString secret') acc)"
    unfolding x by (rule Metadata_fds_Cons)
  show ?case
  proof (cases "(fd, secret) = x")
    case True
    then have fd: "fd' = fd" and sec: "secret' = secret" using x by simp_all
    from Cons.prems(1) x fd have "fd \<notin> fst ` set xs" by simp
    then have "channel_key fd \<notin> channel_key ` fst ` set xs"
      using channel_key_inj by blast
    then have "map_of (Metadata_fds xs (AList.update (channel_key fd) (JString secret) acc)) (channel_key fd)
        = map_of (AList.update (channel_key fd) (JString secret) acc) (channel_key fd)"
      by (rule Metadata_fds_other)
    then show ?thesis by (simp add: step fd sec update_conv)
  next
    case False
    with Cons.prems(2) have "(fd, secret) \<in> set xs" by simp
    moreover from Cons.prems(1) have "distinct (map fst xs)" by simp
    ultimately show ?thesis unfolding step by (rule Cons.IH[rotated])
  qed
qed

lemma Metadata_fds_length:
  assumes "distinct (map fst xs)"
  shows "length (Metadata_fds xs []) = length xs"
proof -
  have d: "distinct (map fst (Metadata_fds xs []))" by (rule Metadata_fds_dist) simp
  have "length (Metadata_fds xs []) = length (map fst (Metadata_fds xs []))" by simp
  also have "\<dots> = card (set (map fst (Metadata_fds xs [])))" using d by (rule distinct_card[symmetric])
  also have "set (map fst (Metadata_fds xs [])) = channel_key ` fst ` set xs"
    using Metadata_fds_keys[of xs "[]"] by simp
  also have "card (channel_key ` fst ` set xs) = card (fst ` set xs)"
    by (rule card_image) (auto simp: inj_on_def dest: channel_key_inj)
  also have "\<dots> = card (set (map fst xs))" by simp
  also have "\<dots> = length (map fst xs)" using assms by (rule distinct_card)
  also have "\<dots> = length xs" by simp
  finally show ?thesis .
qed

text \<open>
  C8. For a session whose \<^verbatim>\<open>fds\<close> map has one entry per channel id, \<^verbatim>\<open>Metadata\<close> is the
  object with the single key \<open>fds\<close> holding a map that has exactly one entry per
  registered channel: the control channel (id -1) under \<open>control\<close> and every other
  channel under its decimal id, each with that channel's secret.
\<close>

theorem Metadata_shape:
  "distinct (map fst (fds s)) \<Longrightarrow>
   \<exists>m. Metadata s = [(''fds'', JMap m)] \<and> distinct (map fst m) \<and> length m = length (fds s) \<and>
       (\<forall>fd secret. (fd, secret) \<in> set (fds s) \<longrightarrow>
          map_of m (if fd = -1 then ''control'' else Itoa fd) = Some (JString secret))"
proof -
  assume d: "distinct (map fst (fds s))"
  let ?m = "Metadata_fds (fds s) []"
  have "Metadata s = [(''fds'', JMap ?m)]" by (simp add: Metadata_def)
  moreover have "distinct (map fst ?m)" by (rule Metadata_fds_dist) simp
  moreover have "length ?m = length (fds s)" using d by (rule Metadata_fds_length)
  moreover have "\<forall>fd secret. (fd, secret) \<in> set (fds s) \<longrightarrow>
      map_of ?m (if fd = -1 then ''control'' else Itoa fd) = Some (JString secret)"
    using Metadata_fds_lookup[OF d, of _ _ "[]"] by (simp add: channel_key_def)
  ultimately show ?thesis by blast
qed

theorem Metadata_shape_witness:
  "distinct (map fst (fds example_ws)) \<and>
   Metadata example_ws = [(''fds'', JMap [(''control'', JString ''ctl''), (''0'', JString ''dat'')])]"
proof -
  have d: "distinct (map fst (fds example_ws))" by (simp add: example_ws_def new_consoleWs_def)
  have e: "Metadata example_ws = [(''fds'', JMap [(''control'', JString ''ctl''), (''0'', JString ''dat'')])]"
    by (simp add: example_ws_def new_consoleWs_def Metadata_def Itoa_def digits.simps digit_char_def)
  from Metadata_shape[OF d] d e show ?thesis by blast
qed

subsection \<open>The control loop\<close>

lemma control_iter_ends: "fst (control_iter env f p) = (\<not> ends_read f)"
  by (auto simp: control_iter_def ends_read_def split: sum.splits)

lemma control_loop_Exited: "(fst (control_loop env fs p) = Exited) = list_ex ends_read fs"
proof (induction fs arbitrary: p)
  case Nil
  show ?case by simp
next
  case (Cons f fs)
  obtain b p' where it: "control_iter env f p = (b, p')" by (cases "control_iter env f p")
  then have b: "b = (\<not> ends_read f)" using control_iter_ends[of env f p] by simp
  show ?case
  proof (cases b)
    case True
    then show ?thesis using it b Cons.IH[of p'] by simp
  next
    case False
    then show ?thesis using it b by simp
  qed
qed

lemma control_frame_main: "main (control_frame env f s) = main s"
  by (auto simp: control_frame_def split: option.splits prod.splits)

text \<open>
  C7. The control loop has left its loop exactly when one of the frames delivered so far
  was a close message or a failed read, and an iteration on any other frame goes on to
  the next one. An iteration never moves \<^verbatim>\<open>Do\<close> itself. A decoded message whose command
  is not \<^verbatim>\<open>window-resize\<close>, or whose width or height does not parse, leaves the pty
  untouched; a resize call that fails is recorded as made and leaves the window size
  untouched.
\<close>

theorem control_loop_skips_and_ends:
  "(fst (control_loop env fs p) = Exited) = list_ex ends_read fs \<and>
   fst (control_iter env f p) = (\<not> ends_read f) \<and>
   main (control_frame env f s) = main s \<and>
   (\<not> ends_read f \<and> read_all f = Inr buf \<and> Unmarshal env buf = Inr cmd \<and>
    (Command cmd \<noteq> ''window-resize'' \<or> isl (Atoi env (Args_get cmd ''width'')) \<or>
     isl (Atoi env (Args_get cmd ''height'')))
      \<longrightarrow> control_iter env f p = (True, p)) \<and>
   (\<not> ends_read f \<and> read_all f = Inr buf \<and> Unmarshal env buf = Inr cmd \<and>
    Command cmd = ''window-resize'' \<and> Atoi env (Args_get cmd ''width'') = Inr w \<and>
    Atoi env (Args_get cmd ''height'') = Inr h \<and> SetSize env (length (resizes p)) w h = Some err
      \<longrightarrow> control_iter env f p = (True, p\<lparr>resizes := resizes p @ [(w, h)]\<rparr>))"
proof (intro conjI)
  show "(fst (control_loop env fs p) = Exited) = list_ex ends_read fs"
    by (rule control_loop_Exited)
  show "fst (control_iter env f p) = (\<not> ends_read f)"
    by (rule control_iter_ends)
  show "main (control_frame env f s) = main s"
    by (rule control_frame_main)
  show "\<not> ends_read f \<and> read_all f = Inr buf \<and> Unmarshal env buf = Inr cmd \<and>
    (Command cmd \<noteq> ''window-resize'' \<or> isl (Atoi env (Args_get cmd ''width'')) \<or>
     isl (Atoi env (Args_get cmd ''height'')))
      \<longrightarrow> control_iter env f p = (True, p)"
    by (auto simp: control_iter_def ends_read_def isl_def split: sum.splits)
  show "\<not> ends_read f \<and> read_all f = Inr buf \<and> Unmarshal env buf = Inr cmd \<and>
    Command cmd = ''window-resize'' \<and> Atoi env (Args_get cmd ''width'') = Inr w \<and>
    Atoi env (Args_get cmd ''height'') = Inr h \<and> SetSize env (length (resizes p)) w h = Some err
      \<longrightarrow> control_iter env f p = (True, p\<lparr>resizes := resizes p @ [(w, h)]\<rparr>)"
    by (auto simp: control_iter_def ends_read_def call_SetSize_def Let_def)
qed


theorem control_loop_skips_and_ends_witness:
  "control_iter example_env (text_frame ''resize x 30'') fresh_pty = (True, fresh_pty) \<and>
   control_iter example_env (text_frame ''resize 0 0'') fresh_pty
     = (True, fresh_pty\<lparr>resizes := resizes fresh_pty @ [(0, 0)]\<rparr>) \<and>
   fst (control_loop example_env [text_frame ''resize x 30'', text_frame ''resize 0 0''] fresh_pty)
     \<noteq> Exited"
proof -
  let ?bad = "\<lparr>Command = ''window-resize'', Args = [(''width'', ''x''), (''height'', ''30'')]\<rparr>"
  let ?zero = "\<lparr>Command = ''window-resize'', Args = [(''width'', ''0''), (''height'', ''0'')]\<rparr>"
  have h1: "\<not> ends_read (text_frame ''resize x 30'') \<and>
      read_all (text_frame ''resize x 30'') = Inr ''resize x 30'' \<and>
      Unmarshal example_env ''resize x 30'' = Inr ?bad \<and>
      (Command ?bad \<noteq> ''window-resize'' \<or> isl (Atoi example_env (Args_get ?bad ''width'')) \<or>
       isl (Atoi example_env (Args_get ?bad ''height'')))"
    by (simp add: ends_read_def text_frame_def CloseMessage_def example_env_def Args_get_def)
  have h2: "\<not> ends_read (text_frame ''resize 0 0'') \<and>
      read_all (text_frame ''resize 0 0'') = Inr ''resize 0 0'' \<and>
      Unmarshal example_env ''resize 0 0'' = Inr ?zero \<and>
      Command ?zero = ''window-resize'' \<and> Atoi example_env (Args_get ?zero ''width'') = Inr 0 \<and>
      Atoi example_env (Args_get ?zero ''height'') = Inr 0 \<and>
      SetSize example_env (length (resizes fresh_pty)) 0 0 = Some (External 22)"
    by (simp add: ends_read_def text_frame_def CloseMessage_def example_env_def Args_get_def
        fresh_pty_def)
  have h3: "\<not> list_ex ends_read [text_frame ''resize x 30'', text_frame ''resize 0 0'']"
    by (simp add: ends_read_def text_frame_def CloseMessage_def)
  show ?thesis
    using h1 h2 h3
      control_loop_skips_and_ends[of example_env
        "[text_frame ''resize x 30'', text_frame ''resize 0 0'']" fresh_pty
        "text_frame ''resize x 30''" "init_state example_ws" "''resize x 30''" ?bad 0 0
        "External 22"]
      control_loop_skips_and_ends[of example_env "[]" fresh_pty
        "text_frame ''resize 0 0''" "init_state example_ws" "''resize 0 0''" ?zero 0 0
        "External 22"]
    by blast
qed

subsection \<open>containerConsolePost\<close>

text \<open>
  C10. When the named container loads and is not running, or is frozen, the handler
  answers \<^verbatim>\<open>BadRequest\<close> with \<^verbatim>\<open>Container is not running\<close> (checked first) or
  \<^verbatim>\<open>Container is frozen\<close>, and has done nothing else: no session allocated, no secret
  drawn, no operation created.
\<close>

theorem containerConsolePost_rejects_stopped:
  "containerLoadByName d name = Inr c \<Longrightarrow> \<not> IsRunning c \<or> IsFrozen c \<Longrightarrow>
   containerConsolePost d name =
     (BadRequest (Errorf (if \<not> IsRunning c then ''Container is not running''
                          else ''Container is frozen'')),
      \<lparr>session_allocated = False, secrets_drawn = 0, operation = None\<rparr>)"
  by (auto simp: containerConsolePost_def)

theorem containerConsolePost_rejects_stopped_witness:
  "containerConsolePost (example_daemon False False) ''c1'' =
     (BadRequest (Errorf ''Container is not running''),
      \<lparr>session_allocated = False, secrets_drawn = 0, operation = None\<rparr>) \<and>
   containerConsolePost (example_daemon True True) ''c1'' =
     (BadRequest (Errorf ''Container is frozen''),
      \<lparr>session_allocated = False, secrets_drawn = 0, operation = None\<rparr>)"
proof -
  let ?c1 = "\<lparr>Name = ''c1'', IsRunning = False, IsFrozen = False, IdmapSet = Inr None\<rparr>"
  let ?c2 = "\<lparr>Name = ''c1'', IsRunning = True, IsFrozen = True, IdmapSet = Inr None\<rparr>"
  have l1: "containerLoadByName (example_daemon False False) ''c1'' = Inr ?c1"
    by (simp add: example_daemon_def)
  have l2: "containerLoadByName (example_daemon True True) ''c1'' = Inr ?c2"
    by (simp add: example_daemon_def)
  have s1: "\<not> IsRunning ?c1 \<or> IsFrozen ?c1" by simp
  have s2: "\<not> IsRunning ?c2 \<or> IsFrozen ?c2" by simp
  from containerConsolePost_rejects_stopped[OF l1 s1]
    containerConsolePost_rejects_stopped[OF l2 s2]
  show ?thesis by simp
qed

text \<open>
  The session the handler registers is the new session of \<open>new_consoleWs\<close>, with the
  first two secrets drawn filed under the control channel and the data channel.
\<close>

lemma draw_secrets_two:
  "draw_secrets rnd (-1) 1 0 [] =
     (case rnd 0 of Inl err \<Rightarrow> (1, Inl err)
      | Inr a \<Rightarrow> (case rnd 1 of Inl err \<Rightarrow> (2, Inl err)
          | Inr b \<Rightarrow> (2, Inr [(-1, a), (0, b)])))"
  by (simp split: sum.splits)

lemma containerConsolePost_session:
  assumes "containerConsolePost d name = (OperationResponse op, e)"
  shows "\<exists>c uid gid a b w h.
      operation e = Some (new_consoleWs c uid gid [(-1, a), (0, b)] w h) \<and>
      RandomCryptoString d 0 = Inr a \<and> RandomCryptoString d 1 = Inr b \<and>
      secrets_drawn e = 2 \<and> session_allocated e"
  using assms
  by (auto simp: containerConsolePost_def draw_secrets_two new_consoleWs_def Let_def
      split: sum.splits if_splits prod.splits option.splits)

subsection \<open>Do: the data-ready predicate\<close>

lemma has_unbound_data_iff: "has_unbound_data cs = (\<exists>i. i \<noteq> -1 \<and> (i, None) \<in> set cs)"
proof (induction cs)
  case Nil
  show ?case by simp
next
  case (Cons x cs)
  obtain i c where x: "x = (i, c)" by (cases x)
  show ?case
  proof (cases "i \<noteq> -1 \<and> c = None")
    case True
    then have "has_unbound_data (x # cs)" by (simp add: x)
    moreover from True have "\<exists>j. j \<noteq> -1 \<and> (j, None) \<in> set (x # cs)" unfolding x by auto
    ultimately show ?thesis by blast
  next
    case False
    then have "has_unbound_data (x # cs) = has_unbound_data cs" by (auto simp: x)
    moreover from False have "(\<exists>j. j \<noteq> -1 \<and> (j, None) \<in> set (x # cs))
        = (\<exists>j. j \<noteq> -1 \<and> (j, None) \<in> set cs)" unfolding x by auto
    ultimately show ?thesis using Cons.IH by simp
  qed
qed

lemma has_unbound_data_update:
  "has_unbound_data (AList.update k (Some c) cs) \<Longrightarrow> has_unbound_data cs"
  by (induction cs) (auto split: if_splits)

lemma Connect_bind_bound:
  "\<not> has_unbound_data (conns s) \<Longrightarrow> \<not> has_unbound_data (conns (snd (Connect_bind s secret upg)))"
  by (auto simp: Connect_bind_def Let_def dest: has_unbound_data_update
      split: option.splits sum.splits prod.splits)

lemma step_bound:
  assumes "\<not> has_unbound_data (conns (ws s))"
  shows "\<not> has_unbound_data (conns (ws (step env a s)))"
proof (cases a)
  case (Handshake secret upg)
  show ?thesis
    using assms Connect_bind_bound[OF assms, of secret upg] by (simp add: step_conns Handshake)
qed (use assms in \<open>simp_all add: step_conns\<close>)

lemma run_bound:
  "\<not> has_unbound_data (conns (ws s)) \<Longrightarrow> \<not> has_unbound_data (conns (ws (run env acts s)))"
proof (induction acts arbitrary: s)
  case Nil
  then show ?case by simp
next
  case (Cons a acts)
  from Cons.prems have "\<not> has_unbound_data (conns (ws (step env a s)))" by (rule step_bound)
  then have "\<not> has_unbound_data (conns (ws (run env acts (step env a s))))" by (rule Cons.IH)
  then show ?case by simp
qed

lemma Connect_bind_allConnected: "allConnected (snd (Connect_bind s secret upg)) = allConnected s"
  by (auto simp: Connect_bind_def Let_def split: option.splits sum.splits prod.splits)

lemma Connect_signal_sends:
  "unreceived (allConnected s) < unreceived (allConnected (snd (Connect_signal s)))
     \<Longrightarrow> \<not> has_unbound_data (conns s)"
  by (auto simp: Connect_signal_def split: if_splits)

lemma main_step_allConnected:
  "unreceived (allConnected (ws (main_step env s))) \<le> unreceived (allConnected (ws s))"
  by (cases "main s")
    (auto simp: main_step_def chan_recv_def unreceived_def split: option.splits if_splits)

lemma control_select_allConnected: "allConnected (ws (control_select s)) = allConnected (ws s)"
  by (auto simp: control_select_def split: option.splits)

lemma step_sends:
  assumes "unreceived (allConnected (ws s)) < unreceived (allConnected (ws (step env a s)))"
  shows "\<not> has_unbound_data (conns (ws s))"
proof (cases "panicked s")
  case True
  with assms show ?thesis by (simp add: step_def)
next
  case False
  show ?thesis
  proof (cases a)
    case (Handshake secret upg)
    with assms False show ?thesis
      using Connect_bind_allConnected[of "ws s" secret upg]
      by (auto simp: step_def handshake_def split: prod.splits bound.splits)
  next
    case HandshakeCheck
    with assms False show ?thesis
      using Connect_signal_sends[of "ws s"]
      by (auto simp: step_def handshake_check_def split: if_splits)
  next
    case MainStep
    with assms False show ?thesis
      using main_step_allConnected[of env s] by (simp add: step_def)
  next
    case ControlSelect
    with assms False show ?thesis by (simp add: step_def control_select_allConnected)
  next
    case (ControlFrame f)
    with assms False show ?thesis by (simp add: step_def control_frame_ws)
  next
    case MirrorStep
    with assms False show ?thesis by (simp add: step_def mirror_step_ws)
  next
    case ReportRead
    with assms False show ?thesis by (simp add: step_def report_read_ws)
  next
    case ReportWrite
    with assms False show ?thesis by (simp add: step_def report_write_ws)
  qed
qed

text \<open>
  C4. The scan of lines 88-93 finds an unbound data slot exactly while some entry other
  than the control channel's holds nil, so "all data channels bound" is false until the
  last data slot is bound. Once true it stays true through every schedule of handshakes
  and goroutine steps. A step adds a signal to \<^verbatim>\<open>allConnected\<close> only in a state where all data
  channels are bound, and they still are after it.
\<close>

theorem data_ready_monotonic:
  "has_unbound_data cs = (\<exists>i. i \<noteq> -1 \<and> (i, None) \<in> set cs) \<and>
   (\<not> has_unbound_data (conns (ws s)) \<longrightarrow>
      \<not> has_unbound_data (conns (ws (run env acts s)))) \<and>
   (unreceived (allConnected (ws s)) < unreceived (allConnected (ws (step env a s))) \<longrightarrow>
      \<not> has_unbound_data (conns (ws s)) \<and> \<not> has_unbound_data (conns (ws (step env a s))))"
  using has_unbound_data_iff[of cs] run_bound[of s env acts] step_sends[of s env a]
    step_bound[of s env a]
  by blast

theorem data_ready_monotonic_witness:
  "\<not> has_unbound_data (conns (ws (step example_env (Handshake ''dat'' (Inr 7)) (init_state example_ws)))) \<and>
   \<not> has_unbound_data (conns (ws (run example_env example_schedule
        (step example_env (Handshake ''dat'' (Inr 7)) (init_state example_ws))))) \<and>
   unreceived (allConnected (ws (step example_env (Handshake ''dat'' (Inr 7)) (init_state example_ws))))
     < unreceived (allConnected (ws (step example_env HandshakeCheck
         (step example_env (Handshake ''dat'' (Inr 7)) (init_state example_ws)))))"
proof -
  let ?s = "step example_env (Handshake ''dat'' (Inr 7)) (init_state example_ws)"
  have b: "\<not> has_unbound_data (conns (ws ?s))" by code_simp
  have u: "unreceived (allConnected (ws ?s))
      < unreceived (allConnected (ws (step example_env HandshakeCheck ?s)))"
    by code_simp
  show ?thesis
    using b u data_ready_monotonic[of "conns (ws ?s)" ?s example_env example_schedule HandshakeCheck]
    by blast
qed

subsection \<open>Do: the order of the shutdown\<close>

lemma precedes_Nil: "precedes a b []"
  by (simp add: precedes_def)

lemma precedes_snoc:
  assumes "precedes a b tr" and "e = b \<Longrightarrow> a \<in> set tr"
  shows "precedes a b (tr @ [e])"
proof (cases "a \<in> set tr")
  case True
  then have "takeWhile (\<lambda>e. e \<noteq> a) (tr @ [e]) = takeWhile (\<lambda>e. e \<noteq> a) tr"
    by (auto simp: takeWhile_append)
  with assms(1) show ?thesis by (simp add: precedes_def)
next
  case False
  then have "takeWhile (\<lambda>e. e \<noteq> a) tr = tr" by (auto intro: takeWhile_eq_all_conv[THEN iffD2])
  with assms(1) have b: "b \<notin> set tr" by (simp add: precedes_def)
  from False assms(2) have "e \<noteq> b" by blast
  with b have "b \<notin> set (tr @ [e])" by simp
  moreover have "set (takeWhile (\<lambda>e. e \<noteq> a) (tr @ [e])) \<subseteq> set (tr @ [e])"
    by (rule set_takeWhileD[THEN conjunct1, THEN subsetI]) 
  ultimately show ?thesis unfolding precedes_def by blast
qed

lemma shutdown_inv_init: "shutdown_inv (init_state w)"
  by (simp add: shutdown_inv_def init_state_def precedes_Nil)

lemma shutdown_inv_handshake: "shutdown_inv s \<Longrightarrow> shutdown_inv (handshake secret upg s)"
  by (auto simp: shutdown_inv_def handshake_def split: prod.splits bound.splits)

lemma shutdown_inv_handshake_check: "shutdown_inv s \<Longrightarrow> shutdown_inv (handshake_check s)"
  by (auto simp: shutdown_inv_def handshake_check_def)

lemma shutdown_inv_control_select: "shutdown_inv s \<Longrightarrow> shutdown_inv (control_select s)"
  by (auto simp: shutdown_inv_def control_select_def split: option.splits)

lemma control_iter_closed:
  "master_closed (snd (control_iter env f p)) = master_closed p"
  by (auto simp: control_iter_def call_SetSize_def Let_def split: sum.splits)

lemma shutdown_inv_control_frame: "shutdown_inv s \<Longrightarrow> shutdown_inv (control_frame env f s)"
  using control_iter_closed[of env f "the_pty s"]
  by (auto simp: shutdown_inv_def control_frame_def split: option.splits prod.splits)

lemma shutdown_inv_report_read: "shutdown_inv s \<Longrightarrow> shutdown_inv (report_read s)"
  by (auto simp: shutdown_inv_def report_read_def intro!: precedes_snoc)

lemma shutdown_inv_report_write: "shutdown_inv s \<Longrightarrow> shutdown_inv (report_write s)"
  by (auto simp: shutdown_inv_def report_write_def intro!: precedes_snoc)

lemma shutdown_inv_mirror_step: "shutdown_inv s \<Longrightarrow> shutdown_inv (mirror_step s)"
  by (cases "mirror s") (auto simp: shutdown_inv_def mirror_step_def split: option.splits)

lemma call_SetSize_closed:
  "master_closed (snd (call_SetSize env w h p)) = master_closed p"
  by (simp add: call_SetSize_def Let_def)

lemma shutdown_inv_main_step: "shutdown_inv s \<Longrightarrow> shutdown_inv (main_step env s)"
  by (cases "main s")
    (auto simp: shutdown_inv_def main_step_def call_SetSize_closed
      split: option.splits intro!: precedes_snoc)

lemma shutdown_inv_step: "shutdown_inv s \<Longrightarrow> shutdown_inv (step env a s)"
  by (cases a)
    (simp_all add: step_def shutdown_inv_handshake shutdown_inv_handshake_check
      shutdown_inv_control_select shutdown_inv_control_frame shutdown_inv_report_read
      shutdown_inv_report_write shutdown_inv_mirror_step shutdown_inv_main_step)

lemma shutdown_inv_run: "shutdown_inv s \<Longrightarrow> shutdown_inv (run env acts s)"
  by (induction acts arbitrary: s) (simp_all add: shutdown_inv_step)

text \<open>
  C5. In every schedule of \<^verbatim>\<open>Do\<close>, its goroutines and the handshakes, from the start of
  \<^verbatim>\<open>Do\<close>: the slave is closed before the test \<^verbatim>\<open>conn == nil\<close> of the control-shutdown path
  is made, and the master is closed only after both directions of the mirror have
  reported.
\<close>

theorem shutdown_order:
  "precedes E_CloseSlave E_EvalControl (events (run env acts (init_state w))) \<and>
   precedes E_ReadDone E_CloseMaster (events (run env acts (init_state w))) \<and>
   precedes E_WriteDone E_CloseMaster (events (run env acts (init_state w))) \<and>
   (master_closed (the_pty (run env acts (init_state w))) \<longrightarrow>
      read_done (run env acts (init_state w)) \<and> write_done (run env acts (init_state w)))"
proof -
  have "shutdown_inv (run env acts (init_state w))"
    using shutdown_inv_init by (rule shutdown_inv_run)
  then show ?thesis by (simp add: shutdown_inv_def)
qed

theorem shutdown_order_witness:
  "events (run example_env example_schedule (init_state example_ws))
     = [E_ReadDone, E_WriteDone, E_CloseSlave, E_EvalControl, E_CloseMaster] \<and>
   master_closed (the_pty (run example_env example_schedule (init_state example_ws))) \<and>
   read_done (run example_env example_schedule (init_state example_ws)) \<and>
   write_done (run example_env example_schedule (init_state example_ws))"
proof -
  have e: "events (run example_env example_schedule (init_state example_ws))
      = [E_ReadDone, E_WriteDone, E_CloseSlave, E_EvalControl, E_CloseMaster]"
    by code_simp
  have m: "master_closed (the_pty (run example_env example_schedule (init_state example_ws)))"
    by code_simp
  from shutdown_order[of example_env example_schedule example_ws] e m
  show ?thesis by simp
qed

subsection \<open>Do: the initial window size\<close>

lemma size_inv_init: "size_inv (init_state (new_consoleWs c uid gid secrets w h))"
  by (simp add: size_inv_def init_state_def new_consoleWs_def make_chan_def)

lemma size_inv_main_step: "size_inv s \<Longrightarrow> size_inv (main_step env s)"
  by (cases "main s")
    (auto simp: size_inv_def main_step_def call_SetSize_def Let_def chan_recv_def
      split: option.splits if_splits)

lemma size_inv_handshake: "size_inv s \<Longrightarrow> size_inv (handshake secret upg s)"
  by (auto simp: size_inv_def handshake_def Connect_bind_def Let_def get_conn_update chan_send_def
      split: prod.splits bound.splits option.splits sum.splits if_splits)

lemma Connect_signal_other:
  "conns (snd (Connect_signal w)) = conns w \<and>
   controlConnected (snd (Connect_signal w)) = controlConnected w \<and>
   width (snd (Connect_signal w)) = width w \<and> height (snd (Connect_signal w)) = height w"
  by (auto simp: Connect_signal_def split: prod.splits)

lemma size_inv_handshake_check: "size_inv s \<Longrightarrow> size_inv (handshake_check s)"
  by (auto simp: size_inv_def handshake_check_def Connect_signal_other)

lemma size_inv_control_select: "size_inv s \<Longrightarrow> size_inv (control_select s)"
  by (auto simp: size_inv_def control_select_def chan_recv_def split: option.splits if_splits)

lemma control_iter_opened: "opened (snd (control_iter env f p)) = opened p"
  by (auto simp: control_iter_def call_SetSize_def Let_def split: sum.splits)

lemma size_inv_control_frame: "size_inv s \<Longrightarrow> size_inv (control_frame env f s)"
  using control_iter_opened[of env f "the_pty s"]
  by (auto simp: size_inv_def control_frame_def split: option.splits prod.splits)

lemma size_inv_mirror_step: "size_inv s \<Longrightarrow> size_inv (mirror_step s)"
  by (cases "mirror s") (auto simp: size_inv_def mirror_step_def split: option.splits)

lemma size_inv_report_read: "size_inv s \<Longrightarrow> size_inv (report_read s)"
  by (auto simp: size_inv_def report_read_def)

lemma size_inv_report_write: "size_inv s \<Longrightarrow> size_inv (report_write s)"
  by (auto simp: size_inv_def report_write_def)

lemma size_inv_step: "size_inv s \<Longrightarrow> size_inv (step env a s)"
  by (cases a)
    (simp_all add: step_def size_inv_handshake size_inv_handshake_check
      size_inv_control_select size_inv_control_frame size_inv_report_read
      size_inv_report_write size_inv_mirror_step size_inv_main_step)

lemma size_inv_run: "size_inv s \<Longrightarrow> size_inv (run env acts s)"
  by (induction acts arbitrary: s) (simp_all add: size_inv_step)

lemma step_width: "width (ws (step env a s)) = width (ws s) \<and> height (ws (step env a s)) = height (ws s)"
proof (cases "panicked s")
  case True
  then show ?thesis by (simp add: step_def)
next
  case False
  show ?thesis
  proof (cases a)
    case (Handshake secret upg)
    with False show ?thesis
      by (auto simp: step_def handshake_def Connect_bind_def Let_def
          split: prod.splits bound.splits option.splits sum.splits if_splits)
  next
    case HandshakeCheck
    with False show ?thesis by (simp add: step_def handshake_check_def Connect_signal_other)
  next
    case MainStep
    with False show ?thesis
      by (cases "main s") (auto simp: step_def main_step_def split: option.splits)
  next
    case ControlSelect
    with False show ?thesis by (auto simp: step_def control_select_def split: option.splits)
  next
    case (ControlFrame f)
    with False show ?thesis by (simp add: step_def control_frame_ws)
  next
    case MirrorStep
    with False show ?thesis by (simp add: step_def mirror_step_ws)
  next
    case ReportRead
    with False show ?thesis by (simp add: step_def report_read_ws)
  next
    case ReportWrite
    with False show ?thesis by (simp add: step_def report_write_ws)
  qed
qed

lemma run_width: "width (ws (run env acts s)) = width (ws s) \<and> height (ws (run env acts s)) = height (ws s)"
  by (induction acts arbitrary: s) (simp_all add: step_width)

text \<open>
  C6. The step of \<^verbatim>\<open>Do\<close> after the pty is open calls \<^verbatim>\<open>SetSize\<close> with the configured
  width and height exactly when both are positive, and goes on to start the goroutines
  whatever the call returns. In every schedule from a new session, as long as the control
  slot is nil (no control channel has connected), the resize calls made are that one
  call, once the step has run and both sizes are positive, and none otherwise.
\<close>

theorem initial_resize_only:
  "(\<not> panicked s \<and> main s = M_InitSize \<longrightarrow>
      main (step env MainStep s) = M_StartControl \<and>
      resizes (the_pty (step env MainStep s)) =
        resizes (the_pty s) @
          (if 0 < width (ws s) \<and> 0 < height (ws s) then [(width (ws s), height (ws s))] else [])) \<and>
   (let s' = run env acts (init_state (new_consoleWs c uid gid secrets w h)) in
    get_conn (conns (ws s')) (-1) = None \<longrightarrow>
      resizes (the_pty s') =
        (if opened (the_pty s') \<and> main s' \<noteq> M_InitSize \<and> 0 < w \<and> 0 < h then [(w, h)] else []))"
proof
  show "\<not> panicked s \<and> main s = M_InitSize \<longrightarrow>
      main (step env MainStep s) = M_StartControl \<and>
      resizes (the_pty (step env MainStep s)) =
        resizes (the_pty s) @
          (if 0 < width (ws s) \<and> 0 < height (ws s) then [(width (ws s), height (ws s))] else [])"
    by (simp add: step_def main_step_def call_SetSize_def Let_def)
next
  let ?s = "run env acts (init_state (new_consoleWs c uid gid secrets w h))"
  have "size_inv ?s" using size_inv_init by (rule size_inv_run)
  moreover have "width (ws ?s) = w \<and> height (ws ?s) = h"
    by (simp add: run_width init_state_def new_consoleWs_def)
  ultimately show "let s' = ?s in
    get_conn (conns (ws s')) (-1) = None \<longrightarrow>
      resizes (the_pty s') =
        (if opened (the_pty s') \<and> main s' \<noteq> M_InitSize \<and> 0 < w \<and> 0 < h then [(w, h)] else [])"
    by (simp add: size_inv_def Let_def)
qed

theorem initial_resize_only_witness:
  "main (step (example_env\<lparr>SetSize := (\<lambda>n w h. Some (External 5))\<rparr>) MainStep
      (run example_env (take 4 example_schedule) (init_state example_ws))) = M_StartControl \<and>
   resizes (the_pty (step (example_env\<lparr>SetSize := (\<lambda>n w h. Some (External 5))\<rparr>) MainStep
      (run example_env (take 4 example_schedule) (init_state example_ws)))) = [(80, 24)] \<and>
   get_conn (conns (ws (run (example_env\<lparr>SetSize := (\<lambda>n w h. Some (External 5))\<rparr>)
      example_schedule (init_state example_ws)))) (-1) = None \<and>
   resizes (the_pty (run (example_env\<lparr>SetSize := (\<lambda>n w h. Some (External 5))\<rparr>)
      example_schedule (init_state example_ws))) = [(80, 24)]"
proof -
  let ?failing = "example_env\<lparr>SetSize := (\<lambda>n w h. Some (External 5))\<rparr>"
  let ?s = "run example_env (take 4 example_schedule) (init_state example_ws)"
  let ?t = "run ?failing example_schedule (init_state example_ws)"
  have a: "\<not> panicked ?s \<and> main ?s = M_InitSize" by code_simp
  have b: "resizes (the_pty ?s) = [] \<and> width (ws ?s) = 80 \<and> height (ws ?s) = 24" by code_simp
  have c: "get_conn (conns (ws ?t)) (-1) = None" by code_simp
  have d: "opened (the_pty ?t) \<and> main ?t \<noteq> M_InitSize" by code_simp
  have e: "example_ws = new_consoleWs ''c1'' 0 0 [(-1, ''ctl''), (0, ''dat'')] 80 24"
    by (simp add: example_ws_def)
  show ?thesis
    using a b c d
      initial_resize_only[of ?s ?failing example_schedule
        "''c1''" 0 0 "[(-1, ''ctl''), (0, ''dat'')]" 80 24]
    unfolding e[symmetric] by (simp add: Let_def)
qed

subsection \<open>Do: an attach call that fails\<close>

lemma control_iter_flags:
  "slave_closed (snd (control_iter env f p)) = slave_closed p \<and>
   master_closed (snd (control_iter env f p)) = master_closed p"
  by (auto simp: control_iter_def call_SetSize_def Let_def split: sum.splits)

lemma unfinished_inv_init: "unfinished_inv (init_state w)"
  by (simp add: unfinished_inv_def init_state_def)

lemma unfinished_inv_main_step:
  "Console env = Some err \<Longrightarrow> unfinished_inv s \<Longrightarrow> unfinished_inv (main_step env s)"
  by (cases "main s")
    (auto simp: unfinished_inv_def main_step_def call_SetSize_def Let_def split: option.splits)

lemma unfinished_inv_handshake: "unfinished_inv s \<Longrightarrow> unfinished_inv (handshake secret upg s)"
  by (auto simp: unfinished_inv_def handshake_def split: prod.splits bound.splits)

lemma unfinished_inv_handshake_check: "unfinished_inv s \<Longrightarrow> unfinished_inv (handshake_check s)"
  by (auto simp: unfinished_inv_def handshake_check_def)

lemma unfinished_inv_control_select: "unfinished_inv s \<Longrightarrow> unfinished_inv (control_select s)"
  by (auto simp: unfinished_inv_def control_select_def split: option.splits)

lemma unfinished_inv_control_frame: "unfinished_inv s \<Longrightarrow> unfinished_inv (control_frame env f s)"
  using control_iter_flags[of env f "the_pty s"]
  by (auto simp: unfinished_inv_def control_frame_def split: option.splits prod.splits)

lemma unfinished_inv_mirror_step: "unfinished_inv s \<Longrightarrow> unfinished_inv (mirror_step s)"
  by (cases "mirror s") (auto simp: unfinished_inv_def mirror_step_def split: option.splits)

lemma unfinished_inv_report_read: "unfinished_inv s \<Longrightarrow> unfinished_inv (report_read s)"
  by (auto simp: unfinished_inv_def report_read_def)

lemma unfinished_inv_report_write: "unfinished_inv s \<Longrightarrow> unfinished_inv (report_write s)"
  by (auto simp: unfinished_inv_def report_write_def)

lemma unfinished_inv_step:
  "Console env = Some err \<Longrightarrow> unfinished_inv s \<Longrightarrow> unfinished_inv (step env a s)"
  by (cases a)
    (simp_all add: step_def unfinished_inv_handshake unfinished_inv_handshake_check
      unfinished_inv_control_select unfinished_inv_control_frame unfinished_inv_report_read
      unfinished_inv_report_write unfinished_inv_mirror_step unfinished_inv_main_step)

lemma unfinished_inv_run:
  "Console env = Some err \<Longrightarrow> unfinished_inv s \<Longrightarrow> unfinished_inv (run env acts s)"
  by (induction acts arbitrary: s) (simp_all add: unfinished_inv_step)

text \<open>
  C1 fails on the code. When the attach call returns an error, \<^verbatim>\<open>Do\<close> returns that error
  at line 223 without entering \<^verbatim>\<open>finisher\<close>: in no schedule is the slave or the master
  closed, no step of the shutdown is ever logged, and \<^verbatim>\<open>Do\<close> never returns nil.
\<close>

theorem Do_attach_error_skips_shutdown:
  "Console env = Some err \<Longrightarrow>
   \<not> slave_closed (the_pty (run env acts (init_state w))) \<and>
   \<not> master_closed (the_pty (run env acts (init_state w))) \<and>
   set (events (run env acts (init_state w))) \<subseteq> {E_ReadDone, E_WriteDone} \<and>
   main (run env acts (init_state w)) \<noteq> M_Returned None \<and>
   (\<not> panicked s \<and> main s = M_Console \<longrightarrow>
      step env MainStep s = s\<lparr>main := M_Returned (Some err)\<rparr>)"
proof -
  assume c: "Console env = Some err"
  have "unfinished_inv (run env acts (init_state w))"
    using c unfinished_inv_init by (rule unfinished_inv_run)
  moreover have "\<not> panicked s \<and> main s = M_Console \<longrightarrow>
      step env MainStep s = s\<lparr>main := M_Returned (Some err)\<rparr>"
    using c by (simp add: step_def main_step_def)
  ultimately show ?thesis by (simp add: unfinished_inv_def)
qed

theorem Do_attach_error_skips_shutdown_witness:
  "main (run (example_env\<lparr>Console := Some (External 5)\<rparr>) example_schedule (init_state example_ws))
     = M_Returned (Some (External 5)) \<and>
   \<not> slave_closed (the_pty (run (example_env\<lparr>Console := Some (External 5)\<rparr>) example_schedule
        (init_state example_ws))) \<and>
   \<not> master_closed (the_pty (run (example_env\<lparr>Console := Some (External 5)\<rparr>) example_schedule
        (init_state example_ws)))"
proof -
  have c: "Console (example_env\<lparr>Console := Some (External 5)\<rparr>) = Some (External 5)" by simp
  have m: "main (run (example_env\<lparr>Console := Some (External 5)\<rparr>) example_schedule
      (init_state example_ws)) = M_Returned (Some (External 5))"
    by code_simp
  from Do_attach_error_skips_shutdown[OF c, of example_schedule example_ws] m
  show ?thesis by simp
qed

end
